theory Spec2Isabelle
  imports Complex_Main "HOL-Library.Sublist"
begin

section \<open>Strings\<close>

text \<open>
  JavaScript strings are modelled as HOL strings. \<open>String.prototype.trim\<close> removes
  leading and trailing white space; the model covers the ASCII white space characters
  (tab, line feed, vertical tab, form feed, carriage return, space).
\<close>

definition isWhitespace :: "char \<Rightarrow> bool" where
  "isWhitespace c = (c \<in> set [CHR 0x09, CHR 0x0A, CHR 0x0B, CHR 0x0C, CHR 0x0D, CHR 0x20])"

definition trim :: "string \<Rightarrow> string" where
  "trim s = rev (dropWhile isWhitespace (rev (dropWhile isWhitespace s)))"

section \<open>Sanitizer\<close>

text \<open>
  Modelled from the spec: \<open>sanitizeInput\<close> is imported from \<open>@/utils/formValidation\<close>,
  which is not among the source files. Section 4.1 of the specification: it "removes or
  escapes characters that could enable script injection when the value is later rendered
  (e.g., \<open><\<close>, \<open>>\<close>, quote characters) and trims leading/trailing whitespace", and it
  "returns empty string for empty/undefined input". The model removes the four characters
  the specification names and then trims; \<open>None\<close> stands for \<open>undefined\<close>.
\<close>

definition isUnsafe :: "char \<Rightarrow> bool" where
  "isUnsafe c = (c \<in> set [CHR ''<'', CHR ''>'', CHR 0x22, CHR 0x27])"

definition sanitizeInput :: "string option \<Rightarrow> string" where
  "sanitizeInput raw =
     (case raw of
        None \<Rightarrow> []
      | Some s \<Rightarrow> trim (filter (\<lambda>c. \<not> isUnsafe c) s))"

section \<open>Validator\<close>

text \<open>
  Modelled from the spec: \<open>validateForm\<close> is imported from \<open>@/utils/formValidation\<close>,
  which is not among the source files. Sections 3 and 4.2 of the specification: a rule
  descriptor is \<open>{required, minLength?, maxLength?, pattern?}\<close>; for each field present
  in the rules, \<open>required\<close> fails if the value is empty or whitespace-only, the length
  bounds fail if the trimmed length is outside them, the pattern fails if the value does
  not match; the checks run in this order and stop at the first failure of the field,
  while every field is evaluated. A regular expression is modelled by its matching
  predicate; a message by its kind, the field and the bound it names. A field without a
  value (\<open>undefined\<close>) counts as the empty string.
\<close>

record validation_rule =
  required :: bool
  minLength :: "nat option"
  maxLength :: "nat option"
  pattern :: "(string \<Rightarrow> bool) option"

datatype message =
    IsRequired string
  | TooShort string nat
  | TooLong string nat
  | InvalidFormat string

type_synonym form_values = "string \<rightharpoonup> string"
type_synonym rule_set = "(string \<times> validation_rule) list"
type_synonym form_errors = "(string \<times> message) list"

record validation_result =
  isValid :: bool
  errors :: form_errors

definition valueOf :: "form_values \<Rightarrow> string \<Rightarrow> string" where
  "valueOf values field = (case values field of None \<Rightarrow> [] | Some v \<Rightarrow> v)"

definition checkRequired :: "string \<Rightarrow> validation_rule \<Rightarrow> string \<Rightarrow> message option" where
  "checkRequired field r v =
     (if required r \<and> trim v = [] then Some (IsRequired field) else None)"

definition checkMinLength :: "string \<Rightarrow> validation_rule \<Rightarrow> string \<Rightarrow> message option" where
  "checkMinLength field r v =
     (case minLength r of
        None \<Rightarrow> None
      | Some n \<Rightarrow> if length (trim v) < n then Some (TooShort field n) else None)"

definition checkMaxLength :: "string \<Rightarrow> validation_rule \<Rightarrow> string \<Rightarrow> message option" where
  "checkMaxLength field r v =
     (case maxLength r of
        None \<Rightarrow> None
      | Some n \<Rightarrow> if n < length (trim v) then Some (TooLong field n) else None)"

definition checkPattern :: "string \<Rightarrow> validation_rule \<Rightarrow> string \<Rightarrow> message option" where
  "checkPattern field r v =
     (case pattern r of
        None \<Rightarrow> None
      | Some matches \<Rightarrow> if matches v then None else Some (InvalidFormat field))"

text \<open>The first failing check of a list of checks, in the order of the list.\<close>

fun firstFailure :: "message option list \<Rightarrow> message option" where
  "firstFailure [] = None"
| "firstFailure (None # cs) = firstFailure cs"
| "firstFailure (Some m # cs) = Some m"

definition validateField :: "string \<Rightarrow> validation_rule \<Rightarrow> string \<Rightarrow> message option" where
  "validateField field r v =
     firstFailure [checkRequired field r v, checkMinLength field r v,
                   checkMaxLength field r v, checkPattern field r v]"

fun collectErrors :: "form_values \<Rightarrow> rule_set \<Rightarrow> form_errors" where
  "collectErrors values [] = []"
| "collectErrors values ((field, r) # rules) =
     (case validateField field r (valueOf values field) of
        None \<Rightarrow> collectErrors values rules
      | Some m \<Rightarrow> (field, m) # collectErrors values rules)"

definition validateForm :: "form_values \<Rightarrow> rule_set \<Rightarrow> validation_result" where
  "validateForm values rules =
     (let errs = collectErrors values rules
      in \<lparr>isValid = (errs = []), errors = errs\<rparr>)"

section \<open>Rate limiter\<close>

text \<open>
  Modelled from the spec: \<open>rateLimiter\<close> is imported from \<open>@/utils/formValidation\<close>,
  which is not among the source files. Sections 3 and 4.3 of the specification: the state
  maps an action key to an ordered sequence of attempt timestamps. \<open>isAllowed\<close> prunes
  the stored timestamps of the key older than \<open>now - windowMs\<close>; if the remaining count
  is below \<open>maxAttempts\<close> it records \<open>now\<close> and returns true, else it returns false and
  records nothing. \<open>getRemainingTime\<close> returns the milliseconds until the oldest
  non-pruned attempt exits the window, and 0 if there are no attempts; the non-pruned
  attempts are read as the stored ones that pruning at \<open>now\<close> keeps. The clock reading
  \<open>now\<close> (milliseconds) is an argument of the model.
\<close>

type_synonym rate_limit_state = "string \<rightharpoonup> int list"

definition attemptsOf :: "rate_limit_state \<Rightarrow> string \<Rightarrow> int list" where
  "attemptsOf st key = (case st key of None \<Rightarrow> [] | Some ts \<Rightarrow> ts)"

definition prune :: "int \<Rightarrow> int \<Rightarrow> int list \<Rightarrow> int list" where
  "prune now windowMs ts = filter (\<lambda>t. \<not> t < now - windowMs) ts"

definition isAllowed ::
  "int \<Rightarrow> string \<Rightarrow> int \<Rightarrow> int \<Rightarrow> rate_limit_state \<Rightarrow> bool \<times> rate_limit_state" where
  "isAllowed now key maxAttempts windowMs st =
     (let remaining = prune now windowMs (attemptsOf st key)
      in if int (length remaining) < maxAttempts
         then (True, st(key \<mapsto> remaining @ [now]))
         else (False, st(key \<mapsto> remaining)))"

fun oldest :: "int \<Rightarrow> int list \<Rightarrow> int" where
  "oldest t [] = t"
| "oldest t (u # ts) = min t (oldest u ts)"

definition getRemainingTime :: "int \<Rightarrow> string \<Rightarrow> int \<Rightarrow> rate_limit_state \<Rightarrow> int" where
  "getRemainingTime now key windowMs st =
     (case prune now windowMs (attemptsOf st key) of
        [] \<Rightarrow> 0
      | t # ts \<Rightarrow> oldest t ts + windowMs - now)"

text \<open>A run of calls of \<open>isAllowed\<close> with the same arguments, at the given clock readings.\<close>

fun isAllowedAt ::
  "string \<Rightarrow> int \<Rightarrow> int \<Rightarrow> int list \<Rightarrow> rate_limit_state \<Rightarrow> bool list \<times> rate_limit_state" where
  "isAllowedAt key maxAttempts windowMs [] st = ([], st)"
| "isAllowedAt key maxAttempts windowMs (now # nows) st =
     (let (b, st1) = isAllowed now key maxAttempts windowMs st;
          (bs, st2) = isAllowedAt key maxAttempts windowMs nows st1
      in (b # bs, st2))"

section \<open>Security monitor\<close>

text \<open>
  Modelled from the spec: \<open>securityMonitor\<close> is imported from
  \<open>@/utils/securityMonitoring\<close>, which is not among the source files. Sections 3 and 4.4
  of the specification: \<open>logEvent\<close> appends a SecurityEvent \<open>{type, metadata,
  timestamp}\<close> with the current timestamp to the log and never fails. The metadata
  records are the ones \<open>onSubmit\<close> builds. \<open>detectSuspiciousActivity\<close> is a heuristic
  over the event log whose threshold the specification leaves open, and the specification
  does not say whether it records its own detections: the form takes it as a parameter, a
  function of the clock reading and the log that returns its verdict and the log as it
  leaves it.
\<close>

datatype event_metadata =
    RateLimitMeta string int
  | ValidationMeta string form_errors
  | SubmissionMeta string bool

record security_event =
  eventType :: string
  metadata :: event_metadata
  timestamp :: int

definition logEvent ::
  "int \<Rightarrow> string \<Rightarrow> event_metadata \<Rightarrow> security_event list \<Rightarrow> security_event list" where
  "logEvent now ty meta events =
     events @ [\<lparr>eventType = ty, metadata = meta, timestamp = now\<rparr>]"

section \<open>The registration form\<close>

text \<open>
  The component \<open>EventRegistrationForm\<close> of
  \<open>src/components/forms/EventRegistrationForm.tsx\<close>. Its props are the event; of the
  string \<open>startDate\<close> the model keeps the time value of \<open>new Date(event.startDate)\<close> in
  milliseconds, \<open>None\<close> for an invalid date. Fees are finite numbers.
\<close>

record fee_table =
  regular :: "rat option"
  earlyBird :: "rat option"
  student :: "rat option"
  member :: "rat option"

record registration_info =
  fees :: "fee_table option"

record event =
  title :: string
  startDate :: "int option"
  endDate :: "int option"
  isVirtual :: bool
  registrationInfo :: "registration_info option"

text \<open>
  The state the handlers read and write: the module-level \<open>rateLimiter\<close> and
  \<open>securityMonitor\<close>, the component's \<open>formErrors\<close> and \<open>isSubmitting\<close>, and the
  toasts shown so far.
\<close>

record toast =
  toastTitle :: string
  toastDescription :: string
  destructive :: bool

record form_state =
  limiter :: rate_limit_state
  securityLog :: "security_event list"
  formErrors :: form_errors
  isSubmitting :: bool
  toasts :: "toast list"

text \<open>
  Every call and state update of a handler, in the order in which the handler performs
  them. A handler returns this trace together with the new state.
\<close>

datatype effect =
    RateLimitCheck bool
  | ValidateForm bool
  | DetectSuspiciousActivity bool
  | LogEvent security_event
  | ShowToast toast
  | SetFormErrors form_errors
  | SetIsSubmitting bool
  | ConsoleLog form_values
  | Timeout int

text \<open>
  \<open>commonValidationRules\<close> is imported from \<open>@/utils/formValidation\<close>; its four rules
  are parameters of the model.
\<close>

record common_rules =
  name :: validation_rule
  email :: validation_rule
  phone :: validation_rule
  organization :: validation_rule

definition validationRules :: "common_rules \<Rightarrow> rule_set" where
  "validationRules commonValidationRules =
     [(''firstName'', name commonValidationRules),
      (''lastName'', name commonValidationRules),
      (''email'', email commonValidationRules),
      (''phone'', phone commonValidationRules),
      (''organization'', organization commonValidationRules),
      (''position'', \<lparr>required = True, minLength = Some 2, maxLength = Some 100,
                       pattern = None\<rparr>)]"

text \<open>
  \<open>Math.ceil(ms / 1000 / 60)\<close> on an integer number of milliseconds, and the decimal
  numeral a template literal prints for an integer.
\<close>

definition ceilMinutes :: "int \<Rightarrow> int" where
  "ceilMinutes ms = - ((- ms) div 60000)"

definition digitChar :: "nat \<Rightarrow> char" where
  "digitChar d = char_of (48 + d)"

function showNat :: "nat \<Rightarrow> string" where
  "showNat n = (if n < 10 then [digitChar n] else showNat (n div 10) @ [digitChar (n mod 10)])"
  by pat_completeness auto
termination
  by (relation "measure (\<lambda>n. n)") auto

declare showNat.simps [simp del]

definition showInt :: "int \<Rightarrow> string" where
  "showInt i = (if i < 0 then CHR ''-'' # showNat (nat (- i)) else showNat (nat i))"

definition tooManyAttemptsToast :: "int \<Rightarrow> toast" where
  "tooManyAttemptsToast remainingTime =
     \<lparr>toastTitle = ''Too many attempts'',
      toastDescription =
        ''Please wait '' @ showInt remainingTime @ '' minutes before submitting again.'',
      destructive = True\<rparr>"

definition securityCheckToast :: toast where
  "securityCheckToast =
     \<lparr>toastTitle = ''Security Check'',
      toastDescription = ''Please wait a moment before submitting.'',
      destructive = True\<rparr>"

definition successToast :: "event \<Rightarrow> toast" where
  "successToast ev =
     \<lparr>toastTitle = ''Registration successful!'',
      toastDescription =
        ''Thank you for registering for '' @ [CHR 0x22] @ title ev @ [CHR 0x22] @
        ''! You will receive a confirmation email with event details and payment instructions.'',
      destructive = False\<rparr>"

text \<open>
  \<open>onSubmit\<close>, lines 63 to 130; \<open>handleSubmit\<close> of react-hook-form calls it with the
  values of the form. One clock reading \<open>now\<close> serves the whole call: the
  rate limiter and the monitor read the clock before the handler first awaits. Nothing in
  the \<open>try\<close> block throws (\<open>logEvent\<close> never fails and the timer's promise always
  resolves), so the \<open>catch\<close> branch is not reached and \<open>finally\<close> runs after the success
  toast.
\<close>

definition onSubmit ::
  "(int \<Rightarrow> security_event list \<Rightarrow> bool \<times> security_event list) \<Rightarrow> common_rules \<Rightarrow> event \<Rightarrow>
   int \<Rightarrow> form_values \<Rightarrow> form_state \<Rightarrow> form_state \<times> effect list" where
  "onSubmit detectSuspiciousActivity commonValidationRules ev now data st =
     (let (allowed, lim) = isAllowed now ''event-registration'' 3 300000 (limiter st)
      in if \<not> allowed then
           let remainingTime =
                 ceilMinutes (getRemainingTime now ''event-registration'' 300000 lim);
               e = \<lparr>eventType = ''rate_limit_exceeded'',
                    metadata = RateLimitMeta ''event-registration'' remainingTime,
                    timestamp = now\<rparr>
           in (st\<lparr>limiter := lim,
                  securityLog :=
                    logEvent now ''rate_limit_exceeded''
                      (RateLimitMeta ''event-registration'' remainingTime) (securityLog st),
                  toasts := toasts st @ [tooManyAttemptsToast remainingTime]\<rparr>,
               [RateLimitCheck False, LogEvent e,
                ShowToast (tooManyAttemptsToast remainingTime)])
         else
           let validation = validateForm data (validationRules commonValidationRules)
           in if \<not> isValid validation then
                let e = \<lparr>eventType = ''validation_failed'',
                         metadata = ValidationMeta ''event-registration'' (errors validation),
                         timestamp = now\<rparr>
                in (st\<lparr>limiter := lim,
                       formErrors := errors validation,
                       securityLog :=
                         logEvent now ''validation_failed''
                           (ValidationMeta ''event-registration'' (errors validation))
                           (securityLog st)\<rparr>,
                    [RateLimitCheck True, ValidateForm False,
                     SetFormErrors (errors validation), LogEvent e])
              else
                let (suspicious, events) = detectSuspiciousActivity now (securityLog st)
                in if suspicious then
                     (st\<lparr>limiter := lim, securityLog := events,
                         toasts := toasts st @ [securityCheckToast]\<rparr>,
                      [RateLimitCheck True, ValidateForm True, DetectSuspiciousActivity True,
                       ShowToast securityCheckToast])
                   else
                     let e = \<lparr>eventType = ''form_submission'',
                              metadata = SubmissionMeta ''event-registration'' True,
                              timestamp = now\<rparr>
                     in (st\<lparr>limiter := lim,
                            securityLog :=
                              logEvent now ''form_submission''
                                (SubmissionMeta ''event-registration'' True) events,
                            toasts := toasts st @ [successToast ev],
                            isSubmitting := False\<rparr>,
                         [RateLimitCheck True, ValidateForm True,
                          DetectSuspiciousActivity False, SetIsSubmitting True, LogEvent e,
                          ConsoleLog data, Timeout 1000, ShowToast (successToast ev),
                          SetIsSubmitting False]))"

text \<open>
  The states of the form (section 4.5 of the specification) as the trace shows them: the
  form is Submitting while \<open>isSubmitting\<close> is set, reaches Success or Failure with the
  toast of that name, and is Idle again once \<open>isSubmitting\<close> is cleared.
\<close>

datatype phase = Idle | Submitting | Success | Failure

fun phaseAfter :: "effect \<Rightarrow> phase option" where
  "phaseAfter (SetIsSubmitting b) = Some (if b then Submitting else Idle)"
| "phaseAfter (ShowToast t) =
     (if toastTitle t = ''Registration successful!'' then Some Success
      else if toastTitle t = ''Registration failed'' then Some Failure
      else None)"
| "phaseAfter _ = None"

definition phases :: "form_state \<Rightarrow> effect list \<Rightarrow> phase list" where
  "phases st trace =
     (if isSubmitting st then Submitting else Idle) # List.map_filter phaseAfter trace"

text \<open>The checks and the submission a trace went through, in order.\<close>

datatype stage = RateLimitStage | ValidationStage | SuspicionStage | SubmissionStage

fun stageOf :: "effect \<Rightarrow> stage option" where
  "stageOf (RateLimitCheck b) = Some RateLimitStage"
| "stageOf (ValidateForm b) = Some ValidationStage"
| "stageOf (DetectSuspiciousActivity b) = Some SuspicionStage"
| "stageOf (Timeout ms) = Some SubmissionStage"
| "stageOf _ = None"

definition stages :: "effect list \<Rightarrow> stage list" where
  "stages trace = List.map_filter stageOf trace"

text \<open>The events a trace logged, in order.\<close>

fun loggedBy :: "effect \<Rightarrow> security_event option" where
  "loggedBy (LogEvent e) = Some e"
| "loggedBy _ = None"

definition logged :: "effect list \<Rightarrow> security_event list" where
  "logged trace = List.map_filter loggedBy trace"

text \<open>
  Successive submissions of the form, each with its clock reading and its data; the
  result is the last state and the trace of every submission.
\<close>

fun submissions ::
  "(int \<Rightarrow> security_event list \<Rightarrow> bool \<times> security_event list) \<Rightarrow> common_rules \<Rightarrow> event \<Rightarrow>
   (int \<times> form_values) list \<Rightarrow> form_state \<Rightarrow> form_state \<times> effect list list" where
  "submissions detectSuspiciousActivity commonValidationRules ev [] st = (st, [])"
| "submissions detectSuspiciousActivity commonValidationRules ev ((now, data) # rest) st =
     (let (st1, trace) = onSubmit detectSuspiciousActivity commonValidationRules ev now data st;
          (st2, traces) = submissions detectSuspiciousActivity commonValidationRules ev rest st1
      in (st2, trace # traces))"

subsection \<open>Registration types and fees\<close>

text \<open>
  Lines 132 to 138 and 255 to 301. \<open>today\<close> is the time value of \<open>new Date()\<close>. The
  deadline is a copy of the event's date changed by \<open>setDate(getDate() - 30)\<close>, which
  works on local time (ECMAScript, Date.prototype.setDate): with \<open>t = LocalTime(tv)\<close> the
  new time value is \<open>TimeClip(UTC(MakeDate(MakeDay(YearFromTime(t), MonthFromTime(t), dt),
  TimeWithinDay(t))))\<close>. Here \<open>dt\<close> is \<open>DateFromTime(t) - 30\<close>, so the day \<open>MakeDay\<close> returns
  is \<open>Day(t) - 30\<close>: the local calendar day moves back by thirty and the local time of day
  is kept. The offset of local time from UTC, \<open>LocalTZA(t, isUTC)\<close>, depends on the time
  zone of the browser and is a parameter of the model. An invalid date stays invalid, and
  a comparison with an invalid date is false.

  In JSX, \<open>{fee && row}\<close> renders nothing when the fee is undefined, the number itself
  when the fee is 0, and the row otherwise; \<open>false\<close> renders nothing.
\<close>

datatype registration_type = MemberType | StudentType | EarlyBirdType | RegularType

datatype node = Nothing | NumberText rat | OptionRow registration_type rat

definition msPerDay :: int where
  "msPerDay = 86400000"

definition Day :: "int \<Rightarrow> int" where
  "Day t = t div msPerDay"

definition TimeWithinDay :: "int \<Rightarrow> int" where
  "TimeWithinDay t = t mod msPerDay"

definition MakeDate :: "int \<Rightarrow> int \<Rightarrow> int" where
  "MakeDate day time = day * msPerDay + time"

definition LocalTime :: "(int \<Rightarrow> bool \<Rightarrow> int) \<Rightarrow> int \<Rightarrow> int" where
  "LocalTime localTZA t = t + localTZA t True"

definition UTC :: "(int \<Rightarrow> bool \<Rightarrow> int) \<Rightarrow> int \<Rightarrow> int" where
  "UTC localTZA t = t - localTZA t False"

definition TimeClip :: "int \<Rightarrow> int option" where
  "TimeClip time = (if \<bar>time\<bar> > 8640000000000000 then None else Some time)"

definition earlyBirdDeadline :: "(int \<Rightarrow> bool \<Rightarrow> int) \<Rightarrow> event \<Rightarrow> int option" where
  "earlyBirdDeadline localTZA ev =
     (case startDate ev of
        None \<Rightarrow> None
      | Some eventDate \<Rightarrow>
          (let t = LocalTime localTZA eventDate;
               newDate = MakeDate (Day t - 30) (TimeWithinDay t)
           in TimeClip (UTC localTZA newDate)))"

definition isEarlyBird :: "(int \<Rightarrow> bool \<Rightarrow> int) \<Rightarrow> int \<Rightarrow> event \<Rightarrow> bool" where
  "isEarlyBird localTZA today ev =
     (case earlyBirdDeadline localTZA ev of
        None \<Rightarrow> False
      | Some deadline \<Rightarrow> today < deadline)"

definition feeAnd :: "rat option \<Rightarrow> bool \<Rightarrow> registration_type \<Rightarrow> node" where
  "feeAnd fee shown ty =
     (case fee of
        None \<Rightarrow> Nothing
      | Some amount \<Rightarrow>
          if amount = 0 then NumberText amount
          else if shown then OptionRow ty amount
          else Nothing)"

definition registrationTypes :: "(int \<Rightarrow> bool \<Rightarrow> int) \<Rightarrow> int \<Rightarrow> event \<Rightarrow> node list" where
  "registrationTypes localTZA today ev =
     (case registrationInfo ev of
        None \<Rightarrow> []
      | Some info \<Rightarrow>
          (case fees info of
             None \<Rightarrow> []
           | Some f \<Rightarrow>
               [feeAnd (member f) True MemberType,
                feeAnd (student f) True StudentType,
                feeAnd (earlyBird f) (isEarlyBird localTZA today ev) EarlyBirdType,
                feeAnd (regular f) True RegularType]))"

text \<open>The fee of a registration type, when the event defines fees at all.\<close>

definition feeOf :: "event \<Rightarrow> registration_type \<Rightarrow> rat option" where
  "feeOf ev ty =
     (case registrationInfo ev of
        None \<Rightarrow> None
      | Some info \<Rightarrow>
          (case fees info of
             None \<Rightarrow> None
           | Some f \<Rightarrow>
               (case ty of
                  MemberType \<Rightarrow> member f
                | StudentType \<Rightarrow> student f
                | EarlyBirdType \<Rightarrow> earlyBird f
                | RegularType \<Rightarrow> regular f)))"

definition rendered ::
  "(int \<Rightarrow> bool \<Rightarrow> int) \<Rightarrow> int \<Rightarrow> event \<Rightarrow> registration_type \<Rightarrow> bool" where
  "rendered localTZA today ev ty =
     (\<exists>amount. OptionRow ty amount \<in> set (registrationTypes localTZA today ev))"

text \<open>
  Two time zones for the sample event: UTC, and a zone whose clocks are one hour ahead of
  UTC from the time value 4000000000 on, so that the clocks change between the deadline
  and the start of the sample event.
\<close>

definition utcZone :: "int \<Rightarrow> bool \<Rightarrow> int" where
  "utcZone t isUTC = 0"

definition summerZone :: "int \<Rightarrow> bool \<Rightarrow> int" where
  "summerZone t isUTC = (if t < 4000000000 then 0 else 3600000)"

subsection \<open>A sample form\<close>

text \<open>
  Concrete inputs on which the properties below are evaluated: the state of a freshly
  loaded page, rules under which a name has two to fifty characters, an email address
  contains \<open>@\<close> and the other common fields are required, an event, a form filled in
  completely, and the same form with an email address without \<open>@\<close>.
\<close>

definition initialState :: form_state where
  "initialState =
     \<lparr>limiter = Map.empty, securityLog = [], formErrors = [], isSubmitting = False,
      toasts = []\<rparr>"

definition sampleRules :: common_rules where
  "sampleRules =
     \<lparr>name = \<lparr>required = True, minLength = Some 2, maxLength = Some 50, pattern = None\<rparr>,
      email = \<lparr>required = True, minLength = None, maxLength = None,
                pattern = Some (\<lambda>s. CHR ''@'' \<in> set s)\<rparr>,
      phone = \<lparr>required = True, minLength = None, maxLength = None, pattern = None\<rparr>,
      organization = \<lparr>required = True, minLength = Some 2, maxLength = Some 100,
                       pattern = None\<rparr>\<rparr>"

definition sampleEvent :: event where
  "sampleEvent =
     \<lparr>title = ''Annual Conference'', startDate = Some 5000000000, endDate = Some 5086400000,
      isVirtual = False,
      registrationInfo =
        Some \<lparr>fees = Some \<lparr>regular = Some 120, earlyBird = Some 90, student = Some 0,
                             member = None\<rparr>\<rparr>\<rparr>"

definition validData :: form_values where
  "validData =
     [''firstName'' \<mapsto> ''John'', ''lastName'' \<mapsto> ''Doe'', ''email'' \<mapsto> ''john.doe@email.com'',
      ''phone'' \<mapsto> ''+1-555-123-4567'', ''organization'' \<mapsto> ''University'',
      ''position'' \<mapsto> ''Teacher'']"

definition invalidData :: form_values where
  "invalidData = validData(''email'' \<mapsto> ''john.doe.email.com'')"


section \<open>Properties of the sanitizer\<close>

lemma set_trim: "set (trim s) \<subseteq> set s"
  unfolding trim_def
  by (metis set_dropWhileD set_rev subsetI)

lemma rtrim_prefix: "a = rev (dropWhile P (rev a)) @ rev (takeWhile P (rev a))"
  by (metis rev_append rev_rev_ident takeWhile_dropWhile_id)

lemma dropWhile_rtrim:
  assumes "a = [] \<or> \<not> P (hd a)"
  shows "dropWhile P (rev (dropWhile P (rev a))) = rev (dropWhile P (rev a))"
proof (cases "rev (dropWhile P (rev a)) = []")
  case True
  then show ?thesis by (simp only: dropWhile.simps)
next
  case False
  define b where "b = rev (dropWhile P (rev a))"
  have ab: "a = b @ rev (takeWhile P (rev a))"
    unfolding b_def by (rule rtrim_prefix)
  from False have bne: "b \<noteq> []" by (simp add: b_def)
  with ab have "hd a = hd b" by (metis hd_append2)
  moreover from ab bne have "a \<noteq> []" by auto
  ultimately have "\<not> P (hd b)" using assms by auto
  then have "dropWhile P b = b" by (simp add: dropWhile_eq_self_iff)
  then show ?thesis by (simp add: b_def)
qed

lemma dropWhile_trim: "dropWhile isWhitespace (trim s) = trim s"
  unfolding trim_def
  by (rule dropWhile_rtrim) (metis hd_dropWhile)

lemma dropWhile_rev_trim: "dropWhile isWhitespace (rev (trim s)) = rev (trim s)"
  by (simp add: trim_def)

lemma trim_Nil: "trim [] = []"
  by (simp add: trim_def)

text \<open>
  Claim C5. \<open>sanitizeInput\<close> is a total function of its input alone. For every input,
  and so for every input containing \<open><script>\<close>, the output contains neither \<open><\<close>
  nor \<open>>\<close>; it neither starts nor ends with white space; the undefined input and the
  empty string give the empty string.
\<close>

theorem sanitizeInput_removes_and_trims:
  "CHR ''<'' \<notin> set (sanitizeInput raw) \<and>
   CHR ''>'' \<notin> set (sanitizeInput raw) \<and>
   dropWhile isWhitespace (sanitizeInput raw) = sanitizeInput raw \<and>
   dropWhile isWhitespace (rev (sanitizeInput raw)) = rev (sanitizeInput raw) \<and>
   sanitizeInput None = [] \<and>
   sanitizeInput (Some []) = []"
proof -
  have unsafe: "\<And>c. c \<in> set (sanitizeInput raw) \<Longrightarrow> \<not> isUnsafe c"
  proof (cases raw)
    case None
    fix c assume "c \<in> set (sanitizeInput raw)"
    with None show "\<not> isUnsafe c" by (simp add: sanitizeInput_def)
  next
    case (Some s)
    fix c assume "c \<in> set (sanitizeInput raw)"
    with Some have "c \<in> set (trim (filter (\<lambda>c. \<not> isUnsafe c) s))"
      by (simp add: sanitizeInput_def)
    then have "c \<in> set (filter (\<lambda>c. \<not> isUnsafe c) s)"
      using set_trim [of "filter (\<lambda>c. \<not> isUnsafe c) s"] by blast
    then show "\<not> isUnsafe c" by simp
  qed
  have lt: "CHR ''<'' \<notin> set (sanitizeInput raw)"
    using unsafe [of "CHR ''<''"] by (auto simp: isUnsafe_def)
  have gt: "CHR ''>'' \<notin> set (sanitizeInput raw)"
    using unsafe [of "CHR ''>''"] by (auto simp: isUnsafe_def)
  have lead: "dropWhile isWhitespace (sanitizeInput raw) = sanitizeInput raw"
    by (cases raw) (simp_all add: sanitizeInput_def dropWhile_trim)
  have trail: "dropWhile isWhitespace (rev (sanitizeInput raw)) = rev (sanitizeInput raw)"
    by (cases raw) (simp_all add: sanitizeInput_def dropWhile_rev_trim)
  have none: "sanitizeInput None = []" by (simp add: sanitizeInput_def)
  have empty: "sanitizeInput (Some []) = []" by (simp add: sanitizeInput_def trim_Nil)
  from lt gt lead trail none empty show ?thesis by blast
qed

section \<open>Properties of the rate limiter\<close>

lemma attemptsOf_upd: "attemptsOf (st(key \<mapsto> ts)) k = (if k = key then ts else attemptsOf st k)"
  by (simp add: attemptsOf_def)

lemma isAllowed_fst:
  "fst (isAllowed now key m w st) = (int (length (prune now w (attemptsOf st key))) < m)"
  by (simp add: isAllowed_def Let_def)

lemma isAllowed_attempts:
  "attemptsOf (snd (isAllowed now key m w st)) key =
     (if int (length (prune now w (attemptsOf st key))) < m
      then prune now w (attemptsOf st key) @ [now]
      else prune now w (attemptsOf st key))"
  by (simp add: isAllowed_def Let_def attemptsOf_upd)

lemma isAllowed_other:
  "k \<noteq> key \<Longrightarrow> snd (isAllowed now key m w st) k = st k"
  by (simp add: isAllowed_def Let_def)

lemma isAllowedAt_Cons:
  "isAllowedAt key m w (now # nows) st =
     (fst (isAllowed now key m w st) # fst (isAllowedAt key m w nows (snd (isAllowed now key m w st))),
      snd (isAllowedAt key m w nows (snd (isAllowed now key m w st))))"
  by (simp add: Let_def split: prod.splits)

lemma burst:
  assumes fresh: "prune t1 1000 (attemptsOf st k) = []"
    and ord: "t1 \<le> t2" "t2 \<le> t3" "t3 \<le> t4" "t4 - 1000 \<le> t1" "t1 + 1000 < t5"
  shows "fst (isAllowedAt k 3 1000 [t1, t2, t3, t4, t5] st) = [True, True, True, False, True]"
proof -
  define s1 where "s1 = snd (isAllowed t1 k 3 1000 st)"
  define s2 where "s2 = snd (isAllowed t2 k 3 1000 s1)"
  define s3 where "s3 = snd (isAllowed t3 k 3 1000 s2)"
  define s4 where "s4 = snd (isAllowed t4 k 3 1000 s3)"
  have b1: "fst (isAllowed t1 k 3 1000 st)" by (simp add: isAllowed_fst fresh)
  have a1: "attemptsOf s1 k = [t1]" by (simp add: s1_def isAllowed_attempts fresh)
  have p2: "prune t2 1000 (attemptsOf s1 k) = [t1]" using ord by (simp add: a1 prune_def)
  have b2: "fst (isAllowed t2 k 3 1000 s1)" by (simp add: isAllowed_fst p2)
  have a2: "attemptsOf s2 k = [t1, t2]" by (simp add: s2_def isAllowed_attempts p2)
  have p3: "prune t3 1000 (attemptsOf s2 k) = [t1, t2]" using ord by (simp add: a2 prune_def)
  have b3: "fst (isAllowed t3 k 3 1000 s2)" by (simp add: isAllowed_fst p3)
  have a3: "attemptsOf s3 k = [t1, t2, t3]" by (simp add: s3_def isAllowed_attempts p3)
  have p4: "prune t4 1000 (attemptsOf s3 k) = [t1, t2, t3]" using ord by (simp add: a3 prune_def)
  have b4: "\<not> fst (isAllowed t4 k 3 1000 s3)" by (simp add: isAllowed_fst p4)
  have a4: "attemptsOf s4 k = [t1, t2, t3]" by (simp add: s4_def isAllowed_attempts p4)
  have "length (prune t5 1000 (attemptsOf s4 k)) \<le> 2"
    using ord by (simp add: a4 prune_def)
  then have b5: "fst (isAllowed t5 k 3 1000 s4)" by (simp add: isAllowed_fst)
  show ?thesis
    using b1 b2 b3 b4 b5
    by (simp add: isAllowedAt_Cons s1_def [symmetric] s2_def [symmetric] s3_def [symmetric]
        s4_def [symmetric] del: isAllowedAt.simps(2))
qed

text \<open>
  Claim C1. A call of \<open>isAllowed\<close> returns true exactly when fewer than \<open>maxAttempts\<close>
  of the stored timestamps of the key are not older than \<open>now - windowMs\<close>; afterwards
  the key holds those timestamps, followed by \<open>now\<close> when the call returned true and by
  nothing when it returned false; other keys are untouched. Hence, for a key without
  attempts in the window, four calls of \<open>isAllowed(k, 3, 1000)\<close> within one window
  return true, true, true, false, and a call more than a window after the first attempt
  returns true.
\<close>

theorem isAllowed_sliding_window:
  assumes "isAllowed now key maxAttempts windowMs st = (allowed, st')"
  shows "allowed = (int (length (filter (\<lambda>t. now - windowMs \<le> t) (attemptsOf st key))) < maxAttempts) \<and>
         attemptsOf st' key =
           filter (\<lambda>t. now - windowMs \<le> t) (attemptsOf st key) @ (if allowed then [now] else []) \<and>
         (\<forall>k. k \<noteq> key \<longrightarrow> st' k = st k) \<and>
         (\<forall>k s t1 t2 t3 t4 t5.
            prune t1 1000 (attemptsOf s k) = [] \<and> t1 \<le> t2 \<and> t2 \<le> t3 \<and> t3 \<le> t4 \<and>
            t4 - 1000 \<le> t1 \<and> t1 + 1000 < t5 \<longrightarrow>
            fst (isAllowedAt k 3 1000 [t1, t2, t3, t4, t5] s) = [True, True, True, False, True])"
proof -
  have pr: "prune now windowMs (attemptsOf st key) = filter (\<lambda>t. now - windowMs \<le> t) (attemptsOf st key)"
    by (simp add: prune_def not_less)
  have a: "allowed = fst (isAllowed now key maxAttempts windowMs st)"
    and s: "st' = snd (isAllowed now key maxAttempts windowMs st)"
    using assms by simp_all
  have c1: "allowed = (int (length (filter (\<lambda>t. now - windowMs \<le> t) (attemptsOf st key))) < maxAttempts)"
    by (simp add: a isAllowed_fst pr)
  have c2: "attemptsOf st' key =
           filter (\<lambda>t. now - windowMs \<le> t) (attemptsOf st key) @ (if allowed then [now] else [])"
    by (simp add: s isAllowed_attempts pr c1)
  have c3: "\<forall>k. k \<noteq> key \<longrightarrow> st' k = st k"
    by (simp add: s isAllowed_other)
  show ?thesis
    using c1 c2 c3 burst by blast
qed

theorem isAllowed_sliding_window_witness:
  "isAllowed 5000 ''k'' 3 1000 [''k'' \<mapsto> [100, 4500], ''j'' \<mapsto> [7]] =
     (True, [''k'' \<mapsto> [4500, 5000], ''j'' \<mapsto> [7]]) \<and>
   fst (isAllowedAt ''k'' 3 1000 [10, 200, 500, 1010, 1011] Map.empty) = [True, True, True, False, True]"
proof -
  have e: "isAllowed 5000 ''k'' 3 1000 [''k'' \<mapsto> [100, 4500], ''j'' \<mapsto> [7]] =
     (True, [''k'' \<mapsto> [4500, 5000], ''j'' \<mapsto> [7]])"
    by (simp add: isAllowed_def attemptsOf_def prune_def Let_def fun_upd_twist)
  have f: "prune 10 1000 (attemptsOf Map.empty ''k'') = []"
    by (simp add: attemptsOf_def prune_def)
  from isAllowed_sliding_window [OF e] f
  have "fst (isAllowedAt ''k'' 3 1000 [10, 200, 500, 1010, 1011] Map.empty) = [True, True, True, False, True]"
    by simp
  with e show ?thesis by simp
qed















section \<open>Properties of the validator\<close>

lemma collectErrors_map_filter:
  "collectErrors values rules =
     List.map_filter
       (\<lambda>(field, r). map_option (Pair field) (validateField field r (valueOf values field)))
       rules"
  by (induction rules) (auto simp: List.map_filter_simps split: option.splits)

lemma map_of_collectErrors_notin:
  "field \<notin> fst ` set rules \<Longrightarrow> map_of (collectErrors values rules) field = None"
  by (induction rules) (auto split: option.splits)

lemma map_of_collectErrors:
  "distinct (map fst rules) \<Longrightarrow> (field, r) \<in> set rules \<Longrightarrow>
   map_of (collectErrors values rules) field = validateField field r (valueOf values field)"
proof (induction rules)
  case Nil
  then show ?case by simp
next
  case (Cons a rules)
  obtain f q where a: "a = (f, q)" by (cases a)
  show ?case
  proof (cases "f = field")
    case True
    with Cons.prems a have "q = r" by (auto simp: image_iff)
    with True a Cons.prems show ?thesis
      by (auto simp: map_of_collectErrors_notin split: option.splits)
  next
    case False
    with Cons a show ?thesis by (auto split: option.splits)
  qed
qed

lemma collectErrors_Nil_iff:
  "(collectErrors values rules = []) =
     list_all (\<lambda>(field, r). validateField field r (valueOf values field) = None) rules"
  by (induction rules) (auto split: option.splits)

lemma validateField_order:
  "validateField field r v =
     (if required r \<and> trim v = [] then Some (IsRequired field)
      else if \<exists>n. minLength r = Some n \<and> length (trim v) < n
        then Some (TooShort field (the (minLength r)))
      else if \<exists>n. maxLength r = Some n \<and> n < length (trim v)
        then Some (TooLong field (the (maxLength r)))
      else if \<exists>matches. pattern r = Some matches \<and> \<not> matches v
        then Some (InvalidFormat field)
      else None)"
  by (auto simp: validateField_def checkRequired_def checkMinLength_def checkMaxLength_def
      checkPattern_def split: option.splits)

text \<open>
  Claim C4. \<open>validateForm\<close> is a function of its two arguments alone. Within a field
  the checks run in the order required, minimal length, maximal length, pattern, and the
  first failure is the field's error; every field of the rules is evaluated on its own,
  whatever the other fields gave, so the errors hold exactly the fields that fail, in the
  order of the rules; a field outside the rules has no error; and \<open>isValid\<close> is true
  exactly when there are no errors.
\<close>

theorem validateForm_fields_in_order:
  "isValid (validateForm values rules) = (errors (validateForm values rules) = []) \<and>
   isValid (validateForm values rules) =
     list_all (\<lambda>(field, r). validateField field r (valueOf values field) = None) rules \<and>
   errors (validateForm values rules) =
     List.map_filter
       (\<lambda>(field, r). map_option (Pair field) (validateField field r (valueOf values field)))
       rules \<and>
   (distinct (map fst rules) \<and> (field, r) \<in> set rules \<longrightarrow>
      map_of (errors (validateForm values rules)) field =
        validateField field r (valueOf values field)) \<and>
   (field \<notin> fst ` set rules \<longrightarrow> map_of (errors (validateForm values rules)) field = None) \<and>
   validateField field r v =
     (if required r \<and> trim v = [] then Some (IsRequired field)
      else if \<exists>n. minLength r = Some n \<and> length (trim v) < n
        then Some (TooShort field (the (minLength r)))
      else if \<exists>n. maxLength r = Some n \<and> n < length (trim v)
        then Some (TooLong field (the (maxLength r)))
      else if \<exists>matches. pattern r = Some matches \<and> \<not> matches v
        then Some (InvalidFormat field)
      else None)"
proof -
  have e: "errors (validateForm values rules) = collectErrors values rules"
    and v: "isValid (validateForm values rules) = (collectErrors values rules = [])"
    by (simp_all add: validateForm_def Let_def)
  have c1: "isValid (validateForm values rules) = (errors (validateForm values rules) = [])"
    by (simp add: e v)
  have c2: "isValid (validateForm values rules) =
     list_all (\<lambda>(field, r). validateField field r (valueOf values field) = None) rules"
    by (simp only: v collectErrors_Nil_iff)
  have c3: "errors (validateForm values rules) =
     List.map_filter
       (\<lambda>(field, r). map_option (Pair field) (validateField field r (valueOf values field)))
       rules"
    by (simp only: e collectErrors_map_filter)
  have c4: "distinct (map fst rules) \<and> (field, r) \<in> set rules \<longrightarrow>
      map_of (errors (validateForm values rules)) field =
        validateField field r (valueOf values field)"
    by (simp only: e) (blast intro: map_of_collectErrors)
  have c5: "field \<notin> fst ` set rules \<longrightarrow> map_of (errors (validateForm values rules)) field = None"
    by (simp only: e) (blast intro: map_of_collectErrors_notin)
  from c1 c2 c3 c4 c5 validateField_order [of field r v] show ?thesis
    by (intro conjI)
qed

theorem validateForm_fields_in_order_witness:
  "distinct (map fst
     [(''firstName'', \<lparr>required = True, minLength = None, maxLength = None, pattern = None\<rparr>),
      (''email'', \<lparr>required = True, minLength = Some 5, maxLength = None,
                   pattern = Some (\<lambda>s. CHR ''@'' \<in> set s)\<rparr>)]) \<and>
   \<not> isValid (validateForm [''firstName'' \<mapsto> [], ''email'' \<mapsto> ''a@b'']
     [(''firstName'', \<lparr>required = True, minLength = None, maxLength = None, pattern = None\<rparr>),
      (''email'', \<lparr>required = True, minLength = Some 5, maxLength = None,
                   pattern = Some (\<lambda>s. CHR ''@'' \<in> set s)\<rparr>)]) \<and>
   map_of (errors (validateForm [''firstName'' \<mapsto> [], ''email'' \<mapsto> ''a@b'']
     [(''firstName'', \<lparr>required = True, minLength = None, maxLength = None, pattern = None\<rparr>),
      (''email'', \<lparr>required = True, minLength = Some 5, maxLength = None,
                   pattern = Some (\<lambda>s. CHR ''@'' \<in> set s)\<rparr>)])) ''firstName'' =
     Some (IsRequired ''firstName'') \<and>
   map_of (errors (validateForm [''firstName'' \<mapsto> [], ''email'' \<mapsto> ''a@b'']
     [(''firstName'', \<lparr>required = True, minLength = None, maxLength = None, pattern = None\<rparr>),
      (''email'', \<lparr>required = True, minLength = Some 5, maxLength = None,
                   pattern = Some (\<lambda>s. CHR ''@'' \<in> set s)\<rparr>)])) ''email'' =
     Some (TooShort ''email'' 5) \<and>
   map_of (errors (validateForm [''firstName'' \<mapsto> [], ''email'' \<mapsto> ''a@b'']
     [(''firstName'', \<lparr>required = True, minLength = None, maxLength = None, pattern = None\<rparr>),
      (''email'', \<lparr>required = True, minLength = Some 5, maxLength = None,
                   pattern = Some (\<lambda>s. CHR ''@'' \<in> set s)\<rparr>)])) ''phone'' = None \<and>
   isValid (validateForm [''firstName'' \<mapsto> '' Ann '']
     [(''firstName'', \<lparr>required = True, minLength = None, maxLength = None, pattern = None\<rparr>)])"
proof -
  let ?rq = "\<lparr>required = True, minLength = None, maxLength = None, pattern = None\<rparr>"
  let ?em = "\<lparr>required = True, minLength = Some 5, maxLength = None,
              pattern = Some (\<lambda>s. CHR ''@'' \<in> set s)\<rparr>"
  let ?rules = "[(''firstName'', ?rq), (''email'', ?em)]"
  let ?vals = "[''firstName'' \<mapsto> [], ''email'' \<mapsto> ''a@b'']"
  have d: "distinct (map fst ?rules)" by simp
  have first: "validateField ''firstName'' ?rq (valueOf ?vals ''firstName'') =
      Some (IsRequired ''firstName'')"
    by (simp add: validateField_def checkRequired_def valueOf_def trim_def)
  have mail: "validateField ''email'' ?em (valueOf ?vals ''email'') =
      Some (TooShort ''email'' 5)"
    by (simp add: validateField_def checkRequired_def checkMinLength_def valueOf_def trim_def
        isWhitespace_def)
  have ann: "validateField ''firstName'' ?rq (valueOf [''firstName'' \<mapsto> '' Ann ''] ''firstName'') = None"
    by (simp add: validateField_def checkRequired_def checkMinLength_def checkMaxLength_def
        checkPattern_def valueOf_def trim_def isWhitespace_def)
  have m1: "(''firstName'', ?rq) \<in> set ?rules" and m2: "(''email'', ?em) \<in> set ?rules"
    and m3: "''phone'' \<notin> fst ` set ?rules"
    by simp_all
  have "distinct (map fst ?rules) \<and> (''firstName'', ?rq) \<in> set ?rules \<longrightarrow>
      map_of (errors (validateForm ?vals ?rules)) ''firstName'' =
        validateField ''firstName'' ?rq (valueOf ?vals ''firstName'')"
    using validateForm_fields_in_order [of ?vals ?rules "''firstName''" ?rq "[]"]
    by (elim conjE) assumption
  with d m1 have "map_of (errors (validateForm ?vals ?rules)) ''firstName'' =
        validateField ''firstName'' ?rq (valueOf ?vals ''firstName'')"
    by blast
  then have w1: "map_of (errors (validateForm ?vals ?rules)) ''firstName'' =
      Some (IsRequired ''firstName'')"
    by (simp only: first)
  have "distinct (map fst ?rules) \<and> (''email'', ?em) \<in> set ?rules \<longrightarrow>
      map_of (errors (validateForm ?vals ?rules)) ''email'' =
        validateField ''email'' ?em (valueOf ?vals ''email'')"
    using validateForm_fields_in_order [of ?vals ?rules "''email''" ?em "[]"]
    by (elim conjE) assumption
  with d m2 have "map_of (errors (validateForm ?vals ?rules)) ''email'' =
        validateField ''email'' ?em (valueOf ?vals ''email'')"
    by blast
  then have w2: "map_of (errors (validateForm ?vals ?rules)) ''email'' =
      Some (TooShort ''email'' 5)"
    by (simp only: mail)
  have "''phone'' \<notin> fst ` set ?rules \<longrightarrow>
      map_of (errors (validateForm ?vals ?rules)) ''phone'' = None"
    using validateForm_fields_in_order [of ?vals ?rules "''phone''" ?rq "[]"]
    by (elim conjE) assumption
  with m3 have w3: "map_of (errors (validateForm ?vals ?rules)) ''phone'' = None"
    by blast
  have "isValid (validateForm ?vals ?rules) =
      list_all (\<lambda>(field, r). validateField field r (valueOf ?vals field) = None) ?rules"
    using validateForm_fields_in_order [of ?vals ?rules "''phone''" ?rq "[]"]
    by (elim conjE) assumption
  with first have w4: "\<not> isValid (validateForm ?vals ?rules)"
    by simp
  have "isValid (validateForm [''firstName'' \<mapsto> '' Ann ''] [(''firstName'', ?rq)]) =
      list_all (\<lambda>(field, r).
        validateField field r (valueOf [''firstName'' \<mapsto> '' Ann ''] field) = None)
        [(''firstName'', ?rq)]"
    using validateForm_fields_in_order [of "[''firstName'' \<mapsto> '' Ann '']" "[(''firstName'', ?rq)]"
        "''phone''" ?rq "[]"]
    by (elim conjE) assumption
  with ann have w5: "isValid (validateForm [''firstName'' \<mapsto> '' Ann ''] [(''firstName'', ?rq)])"
    by simp
  from d w1 w2 w3 w4 w5 show ?thesis by (intro conjI)
qed

section \<open>Properties of the submission handler\<close>

lemma onSubmit_rateLimited:
  assumes "\<not> fst (isAllowed now ''event-registration'' 3 300000 (limiter st))"
  shows "onSubmit d c ev now data st =
     (let lim = snd (isAllowed now ''event-registration'' 3 300000 (limiter st));
          remainingTime = ceilMinutes (getRemainingTime now ''event-registration'' 300000 lim);
          e = \<lparr>eventType = ''rate_limit_exceeded'',
               metadata = RateLimitMeta ''event-registration'' remainingTime,
               timestamp = now\<rparr>
      in (st\<lparr>limiter := lim,
             securityLog := securityLog st @ [e],
             toasts := toasts st @ [tooManyAttemptsToast remainingTime]\<rparr>,
          [RateLimitCheck False, LogEvent e, ShowToast (tooManyAttemptsToast remainingTime)]))"
  using assms by (simp add: onSubmit_def Let_def logEvent_def case_prod_beta)

lemma onSubmit_invalid:
  assumes "fst (isAllowed now ''event-registration'' 3 300000 (limiter st))"
    and "\<not> isValid (validateForm data (validationRules c))"
  shows "onSubmit d c ev now data st =
     (let lim = snd (isAllowed now ''event-registration'' 3 300000 (limiter st));
          errs = errors (validateForm data (validationRules c));
          e = \<lparr>eventType = ''validation_failed'',
               metadata = ValidationMeta ''event-registration'' errs,
               timestamp = now\<rparr>
      in (st\<lparr>limiter := lim, formErrors := errs, securityLog := securityLog st @ [e]\<rparr>,
          [RateLimitCheck True, ValidateForm False, SetFormErrors errs, LogEvent e]))"
  using assms by (simp add: onSubmit_def Let_def logEvent_def case_prod_beta)

lemma onSubmit_suspicious:
  assumes "fst (isAllowed now ''event-registration'' 3 300000 (limiter st))"
    and "isValid (validateForm data (validationRules c))"
    and "fst (d now (securityLog st))"
  shows "onSubmit d c ev now data st =
     (st\<lparr>limiter := snd (isAllowed now ''event-registration'' 3 300000 (limiter st)),
          securityLog := snd (d now (securityLog st)),
          toasts := toasts st @ [securityCheckToast]\<rparr>,
      [RateLimitCheck True, ValidateForm True, DetectSuspiciousActivity True,
       ShowToast securityCheckToast])"
  using assms by (simp add: onSubmit_def Let_def case_prod_beta)

lemma onSubmit_submitted:
  assumes "fst (isAllowed now ''event-registration'' 3 300000 (limiter st))"
    and "isValid (validateForm data (validationRules c))"
    and "\<not> fst (d now (securityLog st))"
  shows "onSubmit d c ev now data st =
     (let e = \<lparr>eventType = ''form_submission'',
               metadata = SubmissionMeta ''event-registration'' True,
               timestamp = now\<rparr>
      in (st\<lparr>limiter := snd (isAllowed now ''event-registration'' 3 300000 (limiter st)),
             securityLog := snd (d now (securityLog st)) @ [e],
             toasts := toasts st @ [successToast ev],
             isSubmitting := False\<rparr>,
          [RateLimitCheck True, ValidateForm True, DetectSuspiciousActivity False,
           SetIsSubmitting True, LogEvent e, ConsoleLog data, Timeout 1000,
           ShowToast (successToast ev), SetIsSubmitting False]))"
  using assms by (simp add: onSubmit_def Let_def logEvent_def case_prod_beta)

lemma onSubmit_cases [case_names rateLimited invalid suspicious submitted]:
  assumes "\<not> fst (isAllowed now ''event-registration'' 3 300000 (limiter st)) \<Longrightarrow> P"
    and "fst (isAllowed now ''event-registration'' 3 300000 (limiter st)) \<Longrightarrow>
         \<not> isValid (validateForm data (validationRules c)) \<Longrightarrow> P"
    and "fst (isAllowed now ''event-registration'' 3 300000 (limiter st)) \<Longrightarrow>
         isValid (validateForm data (validationRules c)) \<Longrightarrow>
         fst (d now (securityLog st)) \<Longrightarrow> P"
    and "fst (isAllowed now ''event-registration'' 3 300000 (limiter st)) \<Longrightarrow>
         isValid (validateForm data (validationRules c)) \<Longrightarrow>
         \<not> fst (d now (securityLog st)) \<Longrightarrow> P"
  shows P
  using assms by blast

lemma stages_simps:
  "stages [] = []"
  "stages (RateLimitCheck b # es) = RateLimitStage # stages es"
  "stages (ValidateForm b # es) = ValidationStage # stages es"
  "stages (DetectSuspiciousActivity b # es) = SuspicionStage # stages es"
  "stages (Timeout ms # es) = SubmissionStage # stages es"
  "stages (LogEvent e # es) = stages es"
  "stages (ShowToast t # es) = stages es"
  "stages (SetFormErrors errs # es) = stages es"
  "stages (SetIsSubmitting b # es) = stages es"
  "stages (ConsoleLog data # es) = stages es"
  by (simp_all add: stages_def List.map_filter_simps)

lemma logged_simps:
  "logged [] = []"
  "logged (LogEvent e # es) = e # logged es"
  "logged (RateLimitCheck b # es) = logged es"
  "logged (ValidateForm b # es) = logged es"
  "logged (DetectSuspiciousActivity b # es) = logged es"
  "logged (Timeout ms # es) = logged es"
  "logged (ShowToast t # es) = logged es"
  "logged (SetFormErrors errs # es) = logged es"
  "logged (SetIsSubmitting b # es) = logged es"
  "logged (ConsoleLog data # es) = logged es"
  by (simp_all add: logged_def List.map_filter_simps)

lemma phases_simps:
  "phases st [] = [if isSubmitting st then Submitting else Idle]"
  "phases st (SetIsSubmitting b # es) =
     (if isSubmitting st then Submitting else Idle) # (if b then Submitting else Idle) #
     tl (phases st es)"
  "phases st (RateLimitCheck b # es) = phases st es"
  "phases st (ValidateForm b # es) = phases st es"
  "phases st (DetectSuspiciousActivity b # es) = phases st es"
  "phases st (Timeout ms # es) = phases st es"
  "phases st (LogEvent e # es) = phases st es"
  "phases st (SetFormErrors errs # es) = phases st es"
  "phases st (ConsoleLog data # es) = phases st es"
  by (simp_all add: phases_def List.map_filter_simps)

lemma phases_toast:
  "phases st (ShowToast (successToast ev) # es) =
     (if isSubmitting st then Submitting else Idle) # Success # tl (phases st es)"
  "phases st (ShowToast securityCheckToast # es) = phases st es"
  "phases st (ShowToast (tooManyAttemptsToast m) # es) = phases st es"
  by (simp_all add: phases_def List.map_filter_simps successToast_def securityCheckToast_def
      tooManyAttemptsToast_def)


lemma sample_valid: "isValid (validateForm validData (validationRules sampleRules))"
  by (simp add: validateForm_def validationRules_def sampleRules_def validData_def
      validateField_def checkRequired_def checkMinLength_def checkMaxLength_def checkPattern_def
      valueOf_def trim_def isWhitespace_def)

lemma sample_invalid:
  "errors (validateForm invalidData (validationRules sampleRules)) =
     [(''email'', InvalidFormat ''email'')]"
  "\<not> isValid (validateForm invalidData (validationRules sampleRules))"
  by (simp_all add: validateForm_def validationRules_def sampleRules_def validData_def
      invalidData_def validateField_def checkRequired_def checkMinLength_def checkMaxLength_def
      checkPattern_def valueOf_def trim_def isWhitespace_def)

lemma initial_allowed:
  "fst (isAllowed now ''event-registration'' 3 300000 (limiter initialState))"
  by (simp add: isAllowed_fst initialState_def attemptsOf_def prune_def)

text \<open>
  Claim C2. A submission goes through the rate-limit check, the validation, the
  suspicion check and the simulated submission in this order, and stops at the first
  check that rejects it; the form reaches Success exactly when the submission stage is
  reached. A rate-limited attempt runs the rate-limit check only: no validation; it logs
  one \<open>rate_limit_exceeded\<close> event, leaves the form in the state it was in (\<open>isSubmitting\<close>
  and \<open>formErrors\<close> unchanged) and shows the toast that tells how many minutes remain.
\<close>

theorem onSubmit_checks_in_order:
  assumes "onSubmit d c ev now data st = (st', trace)"
  shows "stages trace =
           (if \<not> fst (isAllowed now ''event-registration'' 3 300000 (limiter st))
              then [RateLimitStage]
            else if \<not> isValid (validateForm data (validationRules c))
              then [RateLimitStage, ValidationStage]
            else if fst (d now (securityLog st))
              then [RateLimitStage, ValidationStage, SuspicionStage]
            else [RateLimitStage, ValidationStage, SuspicionStage, SubmissionStage]) \<and>
         (Success \<in> set (phases st trace)) = (SubmissionStage \<in> set (stages trace)) \<and>
         (\<not> fst (isAllowed now ''event-registration'' 3 300000 (limiter st)) \<longrightarrow>
            logged trace =
              [\<lparr>eventType = ''rate_limit_exceeded'',
                metadata = RateLimitMeta ''event-registration''
                  (ceilMinutes (getRemainingTime now ''event-registration'' 300000 (limiter st'))),
                timestamp = now\<rparr>] \<and>
            securityLog st' = securityLog st @ logged trace \<and>
            phases st trace = [if isSubmitting st then Submitting else Idle] \<and>
            isSubmitting st' = isSubmitting st \<and>
            formErrors st' = formErrors st \<and>
            toasts st' = toasts st @
              [\<lparr>toastTitle = ''Too many attempts'',
                toastDescription = ''Please wait '' @
                  showInt (ceilMinutes
                    (getRemainingTime now ''event-registration'' 300000 (limiter st'))) @
                  '' minutes before submitting again.'',
                destructive = True\<rparr>])"
proof (cases rule: onSubmit_cases [where now = now and st = st and data = data and c = c and d = d])
  case rateLimited
  define m where
    "m = ceilMinutes (getRemainingTime now ''event-registration'' 300000
           (snd (isAllowed now ''event-registration'' 3 300000 (limiter st))))"
  define e where
    "e = \<lparr>eventType = ''rate_limit_exceeded'',
           metadata = RateLimitMeta ''event-registration'' m, timestamp = now\<rparr>"
  from assms onSubmit_rateLimited [where d = d and c = c and ev = ev and data = data, OF rateLimited]
  have st': "st' = st\<lparr>limiter := snd (isAllowed now ''event-registration'' 3 300000 (limiter st)),
                        securityLog := securityLog st @ [e],
                        toasts := toasts st @ [tooManyAttemptsToast m]\<rparr>"
    and trace: "trace = [RateLimitCheck False, LogEvent e, ShowToast (tooManyAttemptsToast m)]"
    by (simp_all add: Let_def m_def e_def)
  have lim: "limiter st' = snd (isAllowed now ''event-registration'' 3 300000 (limiter st))"
    by (simp add: st')
  have s: "stages trace = [RateLimitStage]"
    by (simp add: trace stages_simps)
  have p: "phases st trace = [if isSubmitting st then Submitting else Idle]"
    by (simp add: trace phases_simps phases_toast)
  have l: "logged trace = [e]"
    by (simp add: trace logged_simps)
  have t: "toasts st' = toasts st @ [tooManyAttemptsToast m]"
    and f: "formErrors st' = formErrors st" "isSubmitting st' = isSubmitting st"
      "securityLog st' = securityLog st @ [e]"
    by (simp_all add: st')
  from rateLimited s p l t f show ?thesis
    by (simp add: lim m_def [symmetric] e_def [symmetric] tooManyAttemptsToast_def)
next
  case invalid
  from assms onSubmit_invalid [where d = d and ev = ev, OF invalid]
  have trace: "trace =
      [RateLimitCheck True, ValidateForm False,
       SetFormErrors (errors (validateForm data (validationRules c))),
       LogEvent \<lparr>eventType = ''validation_failed'',
         metadata = ValidationMeta ''event-registration''
           (errors (validateForm data (validationRules c))),
         timestamp = now\<rparr>]"
    by (simp add: Let_def)
  have s: "stages trace = [RateLimitStage, ValidationStage]"
    by (simp add: trace stages_simps)
  have p: "phases st trace = [if isSubmitting st then Submitting else Idle]"
    by (simp add: trace phases_simps)
  from invalid s p show ?thesis by simp
next
  case suspicious
  from assms onSubmit_suspicious [where d = d and ev = ev, OF suspicious]
  have trace: "trace =
      [RateLimitCheck True, ValidateForm True, DetectSuspiciousActivity True,
       ShowToast securityCheckToast]"
    by simp
  have s: "stages trace = [RateLimitStage, ValidationStage, SuspicionStage]"
    by (simp add: trace stages_simps)
  have p: "phases st trace = [if isSubmitting st then Submitting else Idle]"
    by (simp add: trace phases_simps phases_toast)
  from suspicious s p show ?thesis by simp
next
  case submitted
  from assms onSubmit_submitted [where d = d and ev = ev, OF submitted]
  have trace: "trace =
      [RateLimitCheck True, ValidateForm True, DetectSuspiciousActivity False,
       SetIsSubmitting True,
       LogEvent \<lparr>eventType = ''form_submission'',
         metadata = SubmissionMeta ''event-registration'' True, timestamp = now\<rparr>,
       ConsoleLog data, Timeout 1000, ShowToast (successToast ev), SetIsSubmitting False]"
    by (simp add: Let_def)
  have s: "stages trace = [RateLimitStage, ValidationStage, SuspicionStage, SubmissionStage]"
    by (simp add: trace stages_simps)
  have p: "phases st trace =
      [if isSubmitting st then Submitting else Idle, Submitting, Success, Idle]"
    by (simp add: trace phases_simps phases_toast)
  from submitted s p show ?thesis by simp
qed

lemma showInt_5: "showInt 5 = ''5''"
  by code_simp

theorem onSubmit_checks_in_order_witness:
  "\<not> fst (isAllowed 3000 ''event-registration'' 3 300000
       (limiter (initialState\<lparr>limiter := [''event-registration'' \<mapsto> [0, 1000, 2000]]\<rparr>))) \<and>
   stages (snd (onSubmit (\<lambda>now events. (False, events)) sampleRules sampleEvent 3000 validData
     (initialState\<lparr>limiter := [''event-registration'' \<mapsto> [0, 1000, 2000]]\<rparr>))) =
     [RateLimitStage] \<and>
   toasts (fst (onSubmit (\<lambda>now events. (False, events)) sampleRules sampleEvent 3000 validData
     (initialState\<lparr>limiter := [''event-registration'' \<mapsto> [0, 1000, 2000]]\<rparr>))) =
     [\<lparr>toastTitle = ''Too many attempts'',
       toastDescription = ''Please wait 5 minutes before submitting again.'',
       destructive = True\<rparr>] \<and>
   stages (snd (onSubmit (\<lambda>now events. (False, events)) sampleRules sampleEvent 1000 validData
     initialState)) =
     [RateLimitStage, ValidationStage, SuspicionStage, SubmissionStage]"
proof -
  let ?lim = "[''event-registration'' \<mapsto> [0, 1000, 2000 :: int]]"
  let ?st = "initialState\<lparr>limiter := ?lim\<rparr>"
  let ?d = "\<lambda>(now :: int) (events :: security_event list). (False, events)"
  obtain st' trace where r: "onSubmit ?d sampleRules sampleEvent 3000 validData ?st = (st', trace)"
    by (cases "onSubmit ?d sampleRules sampleEvent 3000 validData ?st")
  obtain st2 trace2 where r2: "onSubmit ?d sampleRules sampleEvent 1000 validData initialState = (st2, trace2)"
    by (cases "onSubmit ?d sampleRules sampleEvent 1000 validData initialState")
  have call: "isAllowed 3000 ''event-registration'' 3 300000 ?lim = (False, ?lim)"
    by (simp add: isAllowed_def attemptsOf_def prune_def Let_def)
  then have rejected: "\<not> fst (isAllowed 3000 ''event-registration'' 3 300000 (limiter ?st))"
    by simp
  from r onSubmit_rateLimited [where d = ?d and c = sampleRules and ev = sampleEvent
      and data = validData, OF rejected]
  have "limiter st' = ?lim" and "toasts ?st = []"
    by (auto simp: Let_def call initialState_def)
  moreover have "getRemainingTime 3000 ''event-registration'' 300000 ?lim = 297000"
    by (simp add: getRemainingTime_def attemptsOf_def prune_def)
  moreover have "ceilMinutes 297000 = 5"
    by (simp add: ceilMinutes_def)
  ultimately have a: "stages trace = [RateLimitStage]"
    and b: "toasts st' =
      [\<lparr>toastTitle = ''Too many attempts'',
        toastDescription = ''Please wait 5 minutes before submitting again.'',
        destructive = True\<rparr>]"
    using onSubmit_checks_in_order [OF r] rejected by (simp_all add: showInt_5)
  have c: "stages trace2 = [RateLimitStage, ValidationStage, SuspicionStage, SubmissionStage]"
    using onSubmit_checks_in_order [OF r2] initial_allowed [of 1000] sample_valid by simp
  from a b c r r2 rejected show ?thesis by simp
qed

lemma onSubmit_limiter:
  "limiter (fst (onSubmit d c ev now data st)) =
     snd (isAllowed now ''event-registration'' 3 300000 (limiter st))"
proof (cases rule: onSubmit_cases [where now = now and st = st and data = data and c = c and d = d])
  case rateLimited
  then show ?thesis
    by (simp add: onSubmit_rateLimited [where d = d and c = c and ev = ev and data = data]
        Let_def)
next
  case invalid
  then show ?thesis
    by (simp add: onSubmit_invalid [where d = d and ev = ev] Let_def)
next
  case suspicious
  then show ?thesis
    by (simp add: onSubmit_suspicious [where d = d and ev = ev])
next
  case submitted
  then show ?thesis
    by (simp add: onSubmit_submitted [where d = d and ev = ev] Let_def)
qed

lemma onSubmit_stages:
  "stages (snd (onSubmit d c ev now data st)) =
     (if \<not> fst (isAllowed now ''event-registration'' 3 300000 (limiter st))
        then [RateLimitStage]
      else if \<not> isValid (validateForm data (validationRules c))
        then [RateLimitStage, ValidationStage]
      else if fst (d now (securityLog st))
        then [RateLimitStage, ValidationStage, SuspicionStage]
      else [RateLimitStage, ValidationStage, SuspicionStage, SubmissionStage])"
proof (cases rule: onSubmit_cases [where now = now and st = st and data = data and c = c and d = d])
  case rateLimited
  then show ?thesis
    by (simp add: onSubmit_rateLimited [where d = d and c = c and ev = ev and data = data]
        Let_def stages_simps)
next
  case invalid
  then show ?thesis
    by (simp add: onSubmit_invalid [where d = d and ev = ev] Let_def stages_simps)
next
  case suspicious
  then show ?thesis
    by (simp add: onSubmit_suspicious [where d = d and ev = ev] stages_simps)
next
  case submitted
  then show ?thesis
    by (simp add: onSubmit_submitted [where d = d and ev = ev] Let_def stages_simps)
qed

lemma onSubmit_logged:
  assumes "onSubmit d c ev now data st = (st', trace)"
  shows "(\<not> fst (isAllowed now ''event-registration'' 3 300000 (limiter st)) \<longrightarrow>
            logged trace =
              [\<lparr>eventType = ''rate_limit_exceeded'',
                metadata = RateLimitMeta ''event-registration''
                  (ceilMinutes (getRemainingTime now ''event-registration'' 300000 (limiter st'))),
                timestamp = now\<rparr>] \<and>
            securityLog st' = securityLog st @ logged trace) \<and>
         (fst (isAllowed now ''event-registration'' 3 300000 (limiter st)) \<and>
          \<not> isValid (validateForm data (validationRules c)) \<longrightarrow>
            logged trace =
              [\<lparr>eventType = ''validation_failed'',
                metadata = ValidationMeta ''event-registration''
                  (errors (validateForm data (validationRules c))),
                timestamp = now\<rparr>] \<and>
            securityLog st' = securityLog st @ logged trace) \<and>
         (fst (isAllowed now ''event-registration'' 3 300000 (limiter st)) \<and>
          isValid (validateForm data (validationRules c)) \<and>
          fst (d now (securityLog st)) \<longrightarrow>
            logged trace = [] \<and>
            securityLog st' = snd (d now (securityLog st)) \<and>
            toasts st' = toasts st @ [securityCheckToast])"
proof (cases rule: onSubmit_cases [where now = now and st = st and data = data and c = c and d = d])
  case rateLimited
  with assms onSubmit_rateLimited [where d = d and c = c and ev = ev and data = data,
      OF rateLimited]
  show ?thesis by (auto simp: Let_def logged_simps)
next
  case invalid
  with assms onSubmit_invalid [where d = d and ev = ev, OF invalid]
  show ?thesis by (auto simp: Let_def logged_simps)
next
  case suspicious
  with assms onSubmit_suspicious [where d = d and ev = ev, OF suspicious]
  show ?thesis by (auto simp: logged_simps)
next
  case submitted
  with assms onSubmit_submitted [where d = d and ev = ev, OF submitted]
  show ?thesis by (auto simp: Let_def logged_simps)
qed


lemma successToast_title:
  "sublist (title ev) (toastDescription (successToast ev))"
proof -
  have "toastDescription (successToast ev) =
      (''Thank you for registering for '' @ [CHR 0x22]) @ title ev @
      ([CHR 0x22] @
       ''! You will receive a confirmation email with event details and payment instructions.'')"
    by (simp add: successToast_def)
  then show ?thesis unfolding sublist_def by blast
qed

text \<open>
  Claim C7. A submission of valid data that is neither rate-limited nor flagged as
  suspicious, on an idle form, takes the form from Idle to Submitting to Success (and
  back to Idle when \<open>isSubmitting\<close> is cleared), logs exactly one event,
  \<open>form_submission\<close> with \<open>success: true\<close>, after whatever the suspicion check left in
  the log, and shows the "Registration successful!" toast, whose description contains the
  title of the event.
\<close>

theorem onSubmit_valid_submission:
  assumes "fst (isAllowed now ''event-registration'' 3 300000 (limiter st))"
    and "isValid (validateForm data (validationRules c))"
    and "\<not> fst (d now (securityLog st))"
    and "\<not> isSubmitting st"
    and "onSubmit d c ev now data st = (st', trace)"
  shows "phases st trace = [Idle, Submitting, Success, Idle] \<and>
         logged trace =
           [\<lparr>eventType = ''form_submission'',
             metadata = SubmissionMeta ''event-registration'' True, timestamp = now\<rparr>] \<and>
         securityLog st' = snd (d now (securityLog st)) @ logged trace \<and>
         toasts st' = toasts st @ [successToast ev] \<and>
         toastTitle (successToast ev) = ''Registration successful!'' \<and>
         sublist (title ev) (toastDescription (successToast ev)) \<and>
         \<not> isSubmitting st'"
proof -
  from assms(5) onSubmit_submitted [where d = d and ev = ev, OF assms(1-3)]
  have st': "st' = st\<lparr>limiter := snd (isAllowed now ''event-registration'' 3 300000 (limiter st)),
       securityLog := snd (d now (securityLog st)) @
         [\<lparr>eventType = ''form_submission'',
           metadata = SubmissionMeta ''event-registration'' True, timestamp = now\<rparr>],
       toasts := toasts st @ [successToast ev],
       isSubmitting := False\<rparr>"
    and trace: "trace =
      [RateLimitCheck True, ValidateForm True, DetectSuspiciousActivity False,
       SetIsSubmitting True,
       LogEvent \<lparr>eventType = ''form_submission'',
         metadata = SubmissionMeta ''event-registration'' True, timestamp = now\<rparr>,
       ConsoleLog data, Timeout 1000, ShowToast (successToast ev), SetIsSubmitting False]"
    by (simp_all add: Let_def)
  have p: "phases st trace = [Idle, Submitting, Success, Idle]"
    using assms(4) by (simp add: trace phases_simps phases_toast)
  have l: "logged trace =
      [\<lparr>eventType = ''form_submission'',
        metadata = SubmissionMeta ''event-registration'' True, timestamp = now\<rparr>]"
    by (simp add: trace logged_simps)
  have t: "toastTitle (successToast ev) = ''Registration successful!''"
    by (simp add: successToast_def)
  from p l t successToast_title [of ev] show ?thesis
    by (simp add: st')
qed

theorem onSubmit_valid_submission_witness:
  "fst (isAllowed 1000 ''event-registration'' 3 300000 (limiter initialState)) \<and>
   isValid (validateForm validData (validationRules sampleRules)) \<and>
   \<not> isSubmitting initialState \<and>
   phases initialState
     (snd (onSubmit (\<lambda>now events. (False, events)) sampleRules sampleEvent 1000 validData initialState)) =
     [Idle, Submitting, Success, Idle] \<and>
   securityLog
     (fst (onSubmit (\<lambda>now events. (False, events)) sampleRules sampleEvent 1000 validData initialState)) =
     [\<lparr>eventType = ''form_submission'',
       metadata = SubmissionMeta ''event-registration'' True, timestamp = 1000\<rparr>] \<and>
   map toastDescription (toasts
     (fst (onSubmit (\<lambda>now events. (False, events)) sampleRules sampleEvent 1000 validData initialState))) =
     [''Thank you for registering for '' @ [CHR 0x22] @ ''Annual Conference'' @ [CHR 0x22] @
      ''! You will receive a confirmation email with event details and payment instructions.'']"
proof -
  let ?d = "\<lambda>(now :: int) (events :: security_event list). (False, events)"
  obtain st' trace
    where r: "onSubmit ?d sampleRules sampleEvent 1000 validData initialState = (st', trace)"
    by (cases "onSubmit ?d sampleRules sampleEvent 1000 validData initialState")
  have i: "\<not> isSubmitting initialState" "securityLog initialState = []"
    "toasts initialState = []"
    by (simp_all add: initialState_def)
  have n: "\<not> fst (?d 1000 (securityLog initialState))" by simp
  from onSubmit_valid_submission [where d = ?d, OF initial_allowed sample_valid n i(1) r] i
  have "phases initialState trace = [Idle, Submitting, Success, Idle]"
    and "securityLog st' =
      [\<lparr>eventType = ''form_submission'',
        metadata = SubmissionMeta ''event-registration'' True, timestamp = 1000\<rparr>]"
    and "toasts st' = [successToast sampleEvent]"
    by simp_all
  with r i(1) initial_allowed [of 1000] sample_valid show ?thesis
    by (simp add: successToast_def sampleEvent_def)
qed

lemma submissions_Cons:
  "submissions d c ev ((now, data) # rest) st =
     (fst (submissions d c ev rest (fst (onSubmit d c ev now data st))),
      snd (onSubmit d c ev now data st) #
      snd (submissions d c ev rest (fst (onSubmit d c ev now data st))))"
  by (simp add: Let_def case_prod_beta)

lemma fourth_rejected:
  assumes fresh: "prune t1 300000 (attemptsOf (limiter st) ''event-registration'') = []"
    and ord: "t1 \<le> t2" "t2 \<le> t3" "t3 \<le> t4" "t4 - 300000 \<le> t1"
    and inv: "\<not> isValid (validateForm data1 (validationRules c))"
      "\<not> isValid (validateForm data2 (validationRules c))"
      "\<not> isValid (validateForm data3 (validationRules c))"
  shows "map stages
           (snd (submissions d c ev [(t1, data1), (t2, data2), (t3, data3), (t4, data4)] st)) =
         [[RateLimitStage, ValidationStage], [RateLimitStage, ValidationStage],
          [RateLimitStage, ValidationStage], [RateLimitStage]]"
proof -
  define s1 where "s1 = fst (onSubmit d c ev t1 data1 st)"
  define s2 where "s2 = fst (onSubmit d c ev t2 data2 s1)"
  define s3 where "s3 = fst (onSubmit d c ev t3 data3 s2)"
  let ?k = "''event-registration''"
  have b1: "fst (isAllowed t1 ?k 3 300000 (limiter st))" by (simp add: isAllowed_fst fresh)
  have a1: "attemptsOf (limiter s1) ?k = [t1]"
    by (simp add: s1_def onSubmit_limiter isAllowed_attempts fresh)
  have p2: "prune t2 300000 (attemptsOf (limiter s1) ?k) = [t1]"
    using ord by (simp add: a1 prune_def)
  have b2: "fst (isAllowed t2 ?k 3 300000 (limiter s1))" by (simp add: isAllowed_fst p2)
  have a2: "attemptsOf (limiter s2) ?k = [t1, t2]"
    by (simp add: s2_def onSubmit_limiter isAllowed_attempts p2)
  have p3: "prune t3 300000 (attemptsOf (limiter s2) ?k) = [t1, t2]"
    using ord by (simp add: a2 prune_def)
  have b3: "fst (isAllowed t3 ?k 3 300000 (limiter s2))" by (simp add: isAllowed_fst p3)
  have a3: "attemptsOf (limiter s3) ?k = [t1, t2, t3]"
    by (simp add: s3_def onSubmit_limiter isAllowed_attempts p3)
  have p4: "prune t4 300000 (attemptsOf (limiter s3) ?k) = [t1, t2, t3]"
    using ord by (simp add: a3 prune_def)
  have b4: "\<not> fst (isAllowed t4 ?k 3 300000 (limiter s3))" by (simp add: isAllowed_fst p4)
  have "stages (snd (onSubmit d c ev t1 data1 st)) = [RateLimitStage, ValidationStage]"
    and "stages (snd (onSubmit d c ev t2 data2 s1)) = [RateLimitStage, ValidationStage]"
    and "stages (snd (onSubmit d c ev t3 data3 s2)) = [RateLimitStage, ValidationStage]"
    and "stages (snd (onSubmit d c ev t4 data4 s3)) = [RateLimitStage]"
    using b1 b2 b3 b4 inv by (simp_all add: onSubmit_stages)
  then show ?thesis
    by (simp add: submissions_Cons s1_def [symmetric] s2_def [symmetric] s3_def [symmetric]
        del: submissions.simps(2))
qed

text \<open>
  Claim C10. A submission that passes the rate-limit check records its attempt for the
  key \<open>event-registration\<close>, whatever the data and whatever the suspicion check says.
  So, for a key without attempts in the window, after three submissions within five
  minutes that each fail the validation, a fourth submission in the same window, with
  valid data, is rejected by the rate limiter and its validation is not run.
\<close>

theorem onSubmit_consumes_attempt:
  "(fst (isAllowed now ''event-registration'' 3 300000 (limiter st)) \<longrightarrow>
      attemptsOf (limiter (fst (onSubmit d c ev now data st))) ''event-registration'' =
        prune now 300000 (attemptsOf (limiter st) ''event-registration'') @ [now]) \<and>
   (prune t1 300000 (attemptsOf (limiter st) ''event-registration'') = [] \<and>
    t1 \<le> t2 \<and> t2 \<le> t3 \<and> t3 \<le> t4 \<and> t4 - 300000 \<le> t1 \<and>
    \<not> isValid (validateForm data1 (validationRules c)) \<and>
    \<not> isValid (validateForm data2 (validationRules c)) \<and>
    \<not> isValid (validateForm data3 (validationRules c)) \<and>
    isValid (validateForm data4 (validationRules c)) \<longrightarrow>
      map stages
        (snd (submissions d c ev [(t1, data1), (t2, data2), (t3, data3), (t4, data4)] st)) =
      [[RateLimitStage, ValidationStage], [RateLimitStage, ValidationStage],
       [RateLimitStage, ValidationStage], [RateLimitStage]])"
proof -
  have "fst (isAllowed now ''event-registration'' 3 300000 (limiter st)) \<longrightarrow>
      attemptsOf (limiter (fst (onSubmit d c ev now data st))) ''event-registration'' =
        prune now 300000 (attemptsOf (limiter st) ''event-registration'') @ [now]"
    by (simp add: onSubmit_limiter isAllowed_attempts isAllowed_fst)
  with fourth_rejected [of t1 st t2 t3 t4 data1 c data2 data3 d ev data4] show ?thesis
    by blast
qed

theorem onSubmit_consumes_attempt_witness:
  "prune 0 300000 (attemptsOf (limiter initialState) ''event-registration'') = [] \<and>
   \<not> isValid (validateForm invalidData (validationRules sampleRules)) \<and>
   isValid (validateForm validData (validationRules sampleRules)) \<and>
   map stages
     (snd (submissions (\<lambda>now events. (False, events)) sampleRules sampleEvent
        [(0, invalidData), (60000, invalidData), (120000, invalidData), (180000, validData)]
        initialState)) =
   [[RateLimitStage, ValidationStage], [RateLimitStage, ValidationStage],
    [RateLimitStage, ValidationStage], [RateLimitStage]]"
proof -
  have f: "prune 0 300000 (attemptsOf (limiter initialState) ''event-registration'') = []"
    by (simp add: initialState_def attemptsOf_def prune_def)
  from onSubmit_consumes_attempt [of 0 initialState "\<lambda>now events. (False, events)" sampleRules sampleEvent
      invalidData 0 60000 120000 180000 invalidData invalidData invalidData validData]
    f sample_invalid(2) sample_valid
  have "map stages
     (snd (submissions (\<lambda>now events. (False, events)) sampleRules sampleEvent
        [(0, invalidData), (60000, invalidData), (120000, invalidData), (180000, validData)]
        initialState)) =
   [[RateLimitStage, ValidationStage], [RateLimitStage, ValidationStage],
    [RateLimitStage, ValidationStage], [RateLimitStage]]"
    by simp
  with f sample_invalid(2) sample_valid show ?thesis by simp
qed

section \<open>Properties of the registration types\<close>

lemma OptionRow_feeAnd:
  "(OptionRow ty amount = feeAnd fee shown ty') =
     (ty = ty' \<and> fee = Some amount \<and> amount \<noteq> 0 \<and> shown)"
  by (auto simp: feeAnd_def split: option.splits)

lemma MakeDate_thirty_days: "MakeDate (Day t - 30) (TimeWithinDay t) = t - 30 * 86400000"
proof -
  have "t div msPerDay * msPerDay + t mod msPerDay = t" by simp
  then show ?thesis
    by (simp add: MakeDate_def Day_def TimeWithinDay_def msPerDay_def algebra_simps)
qed

lemma earlyBirdDeadline_eq:
  "earlyBirdDeadline localTZA ev =
     (case startDate ev of
        None \<Rightarrow> None
      | Some eventDate \<Rightarrow>
          TimeClip (UTC localTZA (LocalTime localTZA eventDate - 30 * 86400000)))"
  by (simp add: earlyBirdDeadline_def Let_def MakeDate_thirty_days split: option.splits)

lemma isEarlyBird_iff:
  "isEarlyBird localTZA today ev =
     (\<exists>eventDate deadline. startDate ev = Some eventDate \<and>
        TimeClip (UTC localTZA (LocalTime localTZA eventDate - 30 * 86400000)) = Some deadline \<and>
        today < deadline)"
  by (auto simp: isEarlyBird_def earlyBirdDeadline_eq split: option.splits)

lemma rendered_iff:
  "rendered localTZA today ev ty =
     ((\<exists>amount. feeOf ev ty = Some amount \<and> amount \<noteq> 0) \<and>
      (ty = EarlyBirdType \<longrightarrow> isEarlyBird localTZA today ev))"
  by (cases ty)
    (auto simp: rendered_def registrationTypes_def feeOf_def OptionRow_feeAnd
      split: option.splits)

lemma same_offset:
  "localTZA (LocalTime localTZA eventDate - 30 * 86400000) False = localTZA eventDate True \<Longrightarrow>
   UTC localTZA (LocalTime localTZA eventDate - 30 * 86400000) = eventDate - 30 * 86400000"
  by (simp add: UTC_def LocalTime_def)

text \<open>
  Claim C9. The early-bird option is rendered exactly when the event has an early-bird
  fee that is defined and not 0 and \<open>today\<close> is strictly before the date thirty days
  before the start of the event, that is, the date with the local time of day of the start
  thirty calendar days earlier, which is thirty times 86400000 ms before the start when
  the offset of local time from UTC is the same on both dates; so a fee of 0, or a date
  on or after that deadline, hides it. The member, student and regular options are
  rendered exactly when their fee is defined and not 0.
\<close>

theorem earlyBird_rendered_iff:
  "rendered localTZA today ev EarlyBirdType =
     ((\<exists>amount. feeOf ev EarlyBirdType = Some amount \<and> amount \<noteq> 0) \<and>
      (\<exists>eventDate deadline. startDate ev = Some eventDate \<and>
         TimeClip (UTC localTZA (LocalTime localTZA eventDate - 30 * 86400000)) = Some deadline \<and>
         today < deadline)) \<and>
   (localTZA (LocalTime localTZA eventDate - 30 * 86400000) False = localTZA eventDate True \<longrightarrow>
      UTC localTZA (LocalTime localTZA eventDate - 30 * 86400000) = eventDate - 30 * 86400000) \<and>
   rendered localTZA today ev MemberType =
     (\<exists>amount. feeOf ev MemberType = Some amount \<and> amount \<noteq> 0) \<and>
   rendered localTZA today ev StudentType =
     (\<exists>amount. feeOf ev StudentType = Some amount \<and> amount \<noteq> 0) \<and>
   rendered localTZA today ev RegularType =
     (\<exists>amount. feeOf ev RegularType = Some amount \<and> amount \<noteq> 0)"
  using same_offset [of localTZA eventDate]
  by (simp add: rendered_iff isEarlyBird_iff)

theorem earlyBird_rendered_iff_witness:
  "rendered utcZone 2407999999 sampleEvent EarlyBirdType \<and>
   \<not> rendered utcZone 2408000000 sampleEvent EarlyBirdType \<and>
   rendered summerZone 2411599999 sampleEvent EarlyBirdType \<and>
   \<not> rendered summerZone 2411600000 sampleEvent EarlyBirdType \<and>
   \<not> rendered utcZone 0 (sampleEvent\<lparr>startDate := None\<rparr>) EarlyBirdType \<and>
   \<not> rendered utcZone 0 sampleEvent StudentType \<and>
   \<not> rendered utcZone 0 sampleEvent MemberType \<and>
   rendered utcZone 0 sampleEvent RegularType \<and>
   registrationTypes utcZone 0 sampleEvent =
     [Nothing, NumberText 0, OptionRow EarlyBirdType 90, OptionRow RegularType 120]"
proof -
  have f: "feeOf sampleEvent EarlyBirdType = Some 90" "feeOf sampleEvent StudentType = Some 0"
    "feeOf sampleEvent MemberType = None" "feeOf sampleEvent RegularType = Some 120"
    "feeOf (sampleEvent\<lparr>startDate := None\<rparr>) EarlyBirdType = Some 90"
    "startDate sampleEvent = Some 5000000000"
    by (simp_all add: feeOf_def sampleEvent_def)
  have z: "TimeClip (UTC utcZone (LocalTime utcZone 5000000000 - 30 * 86400000)) =
      Some 2408000000"
    "TimeClip (UTC summerZone (LocalTime summerZone 5000000000 - 30 * 86400000)) =
      Some 2411600000"
    by (simp_all add: TimeClip_def UTC_def LocalTime_def utcZone_def summerZone_def)
  have r: "registrationTypes utcZone 0 sampleEvent =
     [Nothing, NumberText 0, OptionRow EarlyBirdType 90, OptionRow RegularType 120]"
    by (simp add: registrationTypes_def sampleEvent_def feeAnd_def isEarlyBird_def
        earlyBirdDeadline_def Let_def LocalTime_def UTC_def utcZone_def MakeDate_def Day_def
        TimeWithinDay_def msPerDay_def TimeClip_def)
  from earlyBird_rendered_iff [of utcZone 2407999999 sampleEvent 5000000000]
    earlyBird_rendered_iff [of utcZone 2408000000 sampleEvent 5000000000]
    earlyBird_rendered_iff [of summerZone 2411599999 sampleEvent 5000000000]
    earlyBird_rendered_iff [of summerZone 2411600000 sampleEvent 5000000000]
    earlyBird_rendered_iff [of utcZone 0 "sampleEvent\<lparr>startDate := None\<rparr>" 5000000000]
    earlyBird_rendered_iff [of utcZone 0 sampleEvent 5000000000] f z r
  show ?thesis by simp
qed

end
